theory Spec2Isabelle
  imports Main
begin

section \<open>Python values and exceptions\<close>

text \<open>
  The module \<^verbatim>\<open>mlens/parallel/fit_predict.py\<close> moves opaque Python objects around:
  data partitions, case keys, estimator names, estimators, fitted models.  They are
  values of one universe.  Every value of the universe is hashable and compared by
  structural equality, so a dictionary over it is a map whose key test is HOL equality.
\<close>

datatype pyval =
    PyNone
  | PyInt int
  | PyStr string
  | PyTuple "pyval list"
  | PyObj nat

datatype py_error =
    IndexError
  | KeyError pyval
  | ValueError
  | TypeError
  | OtherError string


text \<open>\<^verbatim>\<open>tup[-1]\<close>: the last element of a sequence; an empty sequence raises.\<close>

fun getitem_last :: "'a list \<Rightarrow> py_error + 'a" where
  "getitem_last [] = Inl IndexError"
| "getitem_last (x # xs) = Inr (last (x # xs))"

text \<open>\<^verbatim>\<open>d[k]\<close> on a dictionary: a missing key raises \<^verbatim>\<open>KeyError(k)\<close>.\<close>

definition getitem_dict :: "(pyval \<rightharpoonup> 'v) \<Rightarrow> pyval \<Rightarrow> py_error + 'v" where
  "getitem_dict d k = (case d k of None \<Rightarrow> Inl (KeyError k) | Some v \<Rightarrow> Inr v)"

text \<open>
  Tuple unpacking \<^verbatim>\<open>a, b, c = xs\<close> and \<^verbatim>\<open>a, b = xs\<close>: any other number of elements
  raises \<^verbatim>\<open>ValueError\<close>.
\<close>

fun unpack3 :: "'a list \<Rightarrow> py_error + ('a \<times> 'a \<times> 'a)" where
  "unpack3 [a, b, c] = Inr (a, b, c)"
| "unpack3 xs = Inl ValueError"

fun unpack2 :: "'a list \<Rightarrow> py_error + ('a \<times> 'a)" where
  "unpack2 [a, b] = Inr (a, b)"
| "unpack2 xs = Inl ValueError"

text \<open>
  \<^verbatim>\<open>zip(*out)\<close>: the i-th output tuple collects the i-th element of every row; the
  output stops at the shortest row, and no row at all gives no output.
\<close>

function zip_star :: "'a list list \<Rightarrow> 'a list list" where
  "zip_star xss =
     (if xss = [] \<or> [] \<in> set xss then []
      else map hd xss # zip_star (map tl xss))"
  by pat_completeness auto
termination
proof (relation "measure (\<lambda>xss. length (hd xss))")
  show "wf (measure (\<lambda>xss::'a list list. length (hd xss)))" by simp
next
  fix xss :: "'a list list"
  assume "\<not> (xss = [] \<or> [] \<in> set xss)"
  then obtain x xs where "xss = x # xs" "x \<noteq> []"
    by (cases xss) auto
  then show "(map tl xss, xss) \<in> measure (\<lambda>xss. length (hd xss))"
    by (cases x) auto
qed

declare zip_star.simps [simp del]

section \<open>The parallel-execution engine\<close>

text \<open>
  A generator expression is consumed lazily: it yields jobs one by one and may raise
  while computing the next one.  Its behaviour is the list of the jobs it yields
  followed by the exception that ends it, if any.
\<close>

type_synonym 'j generator = "'j list \<times> py_error option"

definition gen_append :: "'j generator \<Rightarrow> 'j generator \<Rightarrow> 'j generator" where
  "gen_append g h =
     (case snd g of
        Some e \<Rightarrow> g
      | None \<Rightarrow> (fst g @ fst h, snd h))"

fun run_jobs :: "('j \<Rightarrow> py_error + 'r) \<Rightarrow> 'j list \<Rightarrow> py_error + 'r list" where
  "run_jobs f [] = Inr []"
| "run_jobs f (j # js) =
     (case f j of
        Inl e \<Rightarrow> Inl e
      | Inr r \<Rightarrow> (case run_jobs f js of Inl e \<Rightarrow> Inl e | Inr rs \<Rightarrow> Inr (r # rs)))"

text \<open>
  Modelled from the spec: the parallel-execution engine \<^verbatim>\<open>joblib.Parallel\<close>, an external
  collaborator.  It runs the submissions \<^verbatim>\<open>delayed(function)(args)\<close> and returns the
  results in submission order; a job that raises aborts the batch and its exception
  reaches the caller.  The source hands the engine a generator and its \<^verbatim>\<open>n_jobs\<close>.
  With \<^verbatim>\<open>n_jobs = 1\<close> the engine is serial: it takes one submission at a time and runs it
  before asking for the next, so the first exception, raised by a job or by the
  generator, propagates.  With any other \<^verbatim>\<open>n_jobs\<close> the engine is a pool of workers that
  accepts the list of submissions: the generator is exhausted before a result is
  collected, so an exception of the generator propagates first, and otherwise that of
  the first failing job in submission order.  The argument \<^verbatim>\<open>verbose\<close> only reaches the
  engine's progress reports and is left out.
\<close>

definition Parallel ::
  "int \<Rightarrow> ('j \<Rightarrow> py_error + 'r) \<Rightarrow> 'j generator \<Rightarrow> py_error + 'r list" where
  "Parallel n_jobs function g =
     (if n_jobs = 1 then
        (case run_jobs function (fst g) of
           Inl e \<Rightarrow> Inl e
         | Inr rs \<Rightarrow> (case snd g of Some e \<Rightarrow> Inl e | None \<Rightarrow> Inr rs))
      else
        (case snd g of
           Some e \<Rightarrow> Inl e
         | None \<Rightarrow> run_jobs function (fst g)))"

section \<open>The dispatch primitive\<close>

text \<open>
  The generator of \<^verbatim>\<open>_parallel_estimation\<close>:
  \<^verbatim>\<open>(delayed(function)(add_input + (tup, est)) for tup in data for est in estimator_cases[tup[-1]])\<close>.
  A job is the argument tuple of the work function.
\<close>

fun parallel_estimation_jobs ::
  "pyval list \<Rightarrow> pyval list list \<Rightarrow> (pyval \<rightharpoonup> pyval list) \<Rightarrow> pyval list generator" where
  "parallel_estimation_jobs add_input [] estimator_cases = ([], None)"
| "parallel_estimation_jobs add_input (tup # data) estimator_cases =
     (case getitem_last tup of
        Inl e \<Rightarrow> ([], Some e)
      | Inr k \<Rightarrow>
          (case getitem_dict estimator_cases k of
             Inl e \<Rightarrow> ([], Some e)
           | Inr ests \<Rightarrow>
               gen_append (map (\<lambda>est. add_input @ [PyTuple tup, est]) ests, None)
                 (parallel_estimation_jobs add_input data estimator_cases)))"

text \<open>\<^verbatim>\<open>_parallel_estimation(function, data, estimator_cases, optional_args, n_jobs)\<close>.\<close>

definition parallel_estimation ::
  "(pyval list \<Rightarrow> py_error + 'r) \<Rightarrow> pyval list list \<Rightarrow> (pyval \<rightharpoonup> pyval list) \<Rightarrow>
     pyval list option \<Rightarrow> int \<Rightarrow> py_error + 'r list" where
  "parallel_estimation function data estimator_cases optional_args n_jobs =
     (let add_input = (case optional_args of Some t \<Rightarrow> t | None \<Rightarrow> [])
      in Parallel n_jobs function (parallel_estimation_jobs add_input data estimator_cases))"

section \<open>The imported helper functions\<close>

text \<open>
  The work functions and the matrix assembly come from the module
  \<^verbatim>\<open>_fit_predict_functions\<close> and from pandas; the orchestrators only call them.  They are
  parameters of the model, and each may raise.  A work function takes its argument
  tuple and returns a result tuple, each the list of its elements; \<^verbatim>\<open>fit_score\<close> takes
  the list of its seven positional arguments.
\<close>

record 'm helpers =
  fit_score :: "pyval list \<Rightarrow> py_error + pyval"
  fit_predict_base :: "pyval list \<Rightarrow> py_error + pyval list"
  predict_base :: "pyval list \<Rightarrow> py_error + pyval list"
  predict :: "pyval list \<Rightarrow> py_error + pyval list"
  fit_estimator :: "pyval list \<Rightarrow> py_error + pyval list"
  construct_matrix :: "pyval list list \<Rightarrow> pyval \<Rightarrow> pyval list \<Rightarrow> bool \<Rightarrow> py_error + 'm"
  DataFrame :: "'m \<Rightarrow> pyval list \<Rightarrow> py_error + 'm"

section \<open>The prediction orchestrator\<close>

text \<open>
  \<^verbatim>\<open>_pre_check_estimators(out, case_est_base_columns)\<close>: the three-way unpacking is
  tried first, a \<^verbatim>\<open>ValueError\<close> there is caught and the two-way unpacking is tried;
  an exception of the handler propagates.
\<close>

definition pre_check_estimators :: "pyval list list \<Rightarrow> pyval list \<Rightarrow> py_error + pyval list" where
  "pre_check_estimators out case_est_base_columns =
     (case (case unpack3 (zip_star out) of
              Inr (case_est_names, _, _) \<Rightarrow> Inr case_est_names
            | Inl ValueError \<Rightarrow>
                (case unpack2 (zip_star out) of
                   Inr (case_est_names, _) \<Rightarrow> Inr case_est_names
                 | Inl e \<Rightarrow> Inl e)
            | Inl e \<Rightarrow> Inl e) of
        Inl e \<Rightarrow> Inl e
      | Inr case_est_names \<Rightarrow>
          Inr (filter (\<lambda>ce. ce \<in> set case_est_names) case_est_base_columns))"

text \<open>The choice of the work function at the head of \<^verbatim>\<open>base_predict\<close>.\<close>

definition base_predict_function ::
  "'m helpers \<Rightarrow> bool \<Rightarrow> bool \<Rightarrow> (pyval list \<Rightarrow> py_error + pyval list)" where
  "base_predict_function h folded_preds fit =
     (if folded_preds then
        (if fit then fit_predict_base h else predict_base h)
      else predict h)"

text \<open>The body of \<^verbatim>\<open>base_predict\<close> after the dispatch, on the dispatch's outcome.\<close>

definition base_predict_collect ::
  "'m helpers \<Rightarrow> py_error + pyval list list \<Rightarrow> pyval \<Rightarrow> bool \<Rightarrow> pyval list \<Rightarrow> bool \<Rightarrow>
     py_error + ('m \<times> pyval list)" where
  "base_predict_collect h dispatched n folded_preds columns as_df =
     (case dispatched of
        Inl e \<Rightarrow> Inl e
      | Inr out \<Rightarrow>
          (case pre_check_estimators out columns of
             Inl e \<Rightarrow> Inl e
           | Inr fitted_estimators \<Rightarrow>
               (case construct_matrix h out n fitted_estimators folded_preds of
                  Inl e \<Rightarrow> Inl e
                | Inr M \<Rightarrow>
                    (if as_df then
                       (case DataFrame h M fitted_estimators of
                          Inl e \<Rightarrow> Inl e
                        | Inr M' \<Rightarrow> Inr (M', fitted_estimators))
                     else Inr (M, fitted_estimators)))))"

text \<open>
  \<^verbatim>\<open>base_predict(data, estimator_cases, n, folded_preds, fit, columns, as_df, n_jobs)\<close>.
\<close>

definition base_predict ::
  "'m helpers \<Rightarrow> pyval list list \<Rightarrow> (pyval \<rightharpoonup> pyval list) \<Rightarrow> pyval \<Rightarrow> bool \<Rightarrow> bool \<Rightarrow>
     pyval list \<Rightarrow> bool \<Rightarrow> int \<Rightarrow> py_error + ('m \<times> pyval list)" where
  "base_predict h data estimator_cases n folded_preds fit columns as_df n_jobs =
     (let function = base_predict_function h folded_preds fit;
          out = parallel_estimation function data estimator_cases None n_jobs
      in base_predict_collect h out n folded_preds columns as_df)"

section \<open>The fit orchestrator\<close>

type_synonym registry = "pyval \<rightharpoonup> (pyval \<times> pyval) list"

text \<open>
  The loop \<^verbatim>\<open>for case, est_name, est in out\<close> of \<^verbatim>\<open>fit_estimators\<close>, on the dictionary
  built so far.
\<close>

fun fit_estimators_loop :: "pyval list list \<Rightarrow> registry \<Rightarrow> py_error + registry" where
  "fit_estimators_loop [] fitted_estimators = Inr fitted_estimators"
| "fit_estimators_loop (r # out) fitted_estimators =
     (case unpack3 r of
        Inl e \<Rightarrow> Inl e
      | Inr (case', est_name, est) \<Rightarrow>
          (if est_name \<noteq> PyNone then
             (let fe = (if fitted_estimators case' = None
                        then fitted_estimators(case' \<mapsto> [])
                        else fitted_estimators)
              in (case getitem_dict fe case' of
                    Inl e \<Rightarrow> Inl e
                  | Inr l \<Rightarrow> fit_estimators_loop out (fe(case' \<mapsto> l @ [(est_name, est)]))))
           else fit_estimators_loop out fitted_estimators))"

text \<open>\<^verbatim>\<open>fit_estimators(data, y, estimator_cases, n_jobs)\<close>.\<close>

definition fit_estimators ::
  "'m helpers \<Rightarrow> pyval list list \<Rightarrow> pyval \<Rightarrow> (pyval \<rightharpoonup> pyval list) \<Rightarrow> int \<Rightarrow>
     py_error + registry" where
  "fit_estimators h data y estimator_cases n_jobs =
     (case parallel_estimation (fit_estimator h) data estimator_cases (Some [y]) n_jobs of
        Inl e \<Rightarrow> Inl e
      | Inr out \<Rightarrow> fit_estimators_loop out Map.empty)"

section \<open>The cross-validation orchestrator\<close>

text \<open>
  The generator of \<^verbatim>\<open>cross_validate\<close>.  The dictionary \<^verbatim>\<open>estimators\<close> is the list of its
  items in iteration order; \<^verbatim>\<open>param_sets[est_name]\<close> is looked up when the loop reaches
  the estimator.
\<close>

fun cross_validate_items ::
  "(pyval \<times> pyval) list \<Rightarrow> (pyval \<rightharpoonup> pyval list) \<Rightarrow> pyval \<Rightarrow> pyval \<Rightarrow> pyval \<Rightarrow>
     pyval list generator" where
  "cross_validate_items [] param_sets tup scoring error_score = ([], None)"
| "cross_validate_items ((est_name, est) # items) param_sets tup scoring error_score =
     (case getitem_dict param_sets est_name of
        Inl e \<Rightarrow> ([], Some e)
      | Inr ps \<Rightarrow>
          gen_append
            (map (\<lambda>(i, params). [est, est_name, params, scoring, tup, PyInt (int i), error_score])
               (enumerate 0 ps), None)
            (cross_validate_items items param_sets tup scoring error_score))"

fun cross_validate_jobs ::
  "(pyval \<times> pyval) list \<Rightarrow> (pyval \<rightharpoonup> pyval list) \<Rightarrow> pyval list \<Rightarrow> pyval \<Rightarrow> pyval \<Rightarrow>
     pyval list generator" where
  "cross_validate_jobs estimators param_sets [] scoring error_score = ([], None)"
| "cross_validate_jobs estimators param_sets (tup # dout) scoring error_score =
     gen_append (cross_validate_items estimators param_sets tup scoring error_score)
       (cross_validate_jobs estimators param_sets dout scoring error_score)"

text \<open>\<^verbatim>\<open>cross_validate(estimators, param_sets, dout, scoring, error_score, n_jobs)\<close>.\<close>

definition cross_validate ::
  "'m helpers \<Rightarrow> (pyval \<times> pyval) list \<Rightarrow> (pyval \<rightharpoonup> pyval list) \<Rightarrow> pyval list \<Rightarrow> pyval \<Rightarrow>
     pyval \<Rightarrow> int \<Rightarrow> py_error + pyval list" where
  "cross_validate h estimators param_sets dout scoring error_score n_jobs =
     Parallel n_jobs (fit_score h)
       (cross_validate_jobs estimators param_sets dout scoring error_score)"

section \<open>Helpers for the examples\<close>

text \<open>
  Concrete helpers, for running the orchestrators on examples: one scoring function, one
  work function used for every prediction and fit job, a matrix that records what it
  was assembled from, and a table that is the matrix.
\<close>

definition example_helpers ::
  "(pyval list \<Rightarrow> py_error + pyval) \<Rightarrow> (pyval list \<Rightarrow> py_error + pyval list) \<Rightarrow>
     (pyval list list \<times> pyval list) helpers" where
  "example_helpers score work =
     \<lparr> fit_score = score,
       fit_predict_base = work,
       predict_base = work,
       predict = work,
       fit_estimator = work,
       construct_matrix = (\<lambda>out n cols folded. Inr (out, cols)),
       DataFrame = (\<lambda>M cols. Inr M) \<rparr>"

text \<open>
  A fit job for the examples: it takes \<^verbatim>\<open>(y, tup, est)\<close>, fails to fit the estimator
  \<^verbatim>\<open>bad\<close>, which it reports by a result with no name, and fits every other one.
\<close>

fun example_fit_estimator :: "pyval \<Rightarrow> pyval list \<Rightarrow> py_error + pyval list" where
  "example_fit_estimator bad [y, PyTuple tup, est] =
     (if est = bad then Inr [last tup, PyNone, PyNone]
      else Inr [last tup, est, PyTuple [est, y]])"
| "example_fit_estimator bad job = Inl TypeError"

section \<open>Facts about the engine and the generators\<close>

lemma run_jobs_Inr_D: "run_jobs f js = Inr rs \<Longrightarrow> map f js = map Inr rs"
  by (induction js arbitrary: rs) (auto split: sum.splits)

lemma run_jobs_Inr_I: "map f js = map Inr rs \<Longrightarrow> run_jobs f js = Inr rs"
proof (induction js arbitrary: rs)
  case Nil
  then show ?case by simp
next
  case (Cons j js)
  then obtain r rs' where rs: "rs = r # rs'" "f j = Inr r" "map f js = map Inr rs'"
    by (cases rs) auto
  then have "run_jobs f js = Inr rs'"
    using Cons.IH by blast
  with rs show ?case by simp
qed

lemma run_jobs_Inr_iff: "run_jobs f js = Inr rs \<longleftrightarrow> map f js = map Inr rs"
  using run_jobs_Inr_D run_jobs_Inr_I by blast

lemma run_jobs_Inl: "run_jobs f js = Inl e \<Longrightarrow> \<exists>j\<in>set js. f j = Inl e"
  by (induction js) (auto split: sum.splits)

lemma run_jobs_returns:
  "\<forall>j\<in>set js. \<exists>r. f j = Inr r \<Longrightarrow> \<exists>rs. run_jobs f js = Inr rs"
  by (induction js) (auto split: sum.splits)

lemma run_jobs_append:
  "run_jobs f (xs @ ys) =
     (case run_jobs f xs of
        Inl e \<Rightarrow> Inl e
      | Inr rs \<Rightarrow> (case run_jobs f ys of Inl e \<Rightarrow> Inl e | Inr rs' \<Rightarrow> Inr (rs @ rs')))"
  by (induction xs) (auto split: sum.splits)

lemma gen_append_empty [simp]: "gen_append ([], None) g = g"
  by (simp add: gen_append_def)

lemma gen_append_raised [simp]: "gen_append (js, Some e) g = (js, Some e)"
  by (simp add: gen_append_def)

lemma gen_append_assoc: "gen_append (gen_append a b) c = gen_append a (gen_append b c)"
  by (cases a; cases b) (auto simp: gen_append_def split: option.splits)

lemma Parallel_exhausted: "snd g = None \<Longrightarrow> Parallel n_jobs f g = run_jobs f (fst g)"
  by (cases "run_jobs f (fst g)") (simp_all add: Parallel_def)


lemma parallel_estimation_jobs_append:
  "parallel_estimation_jobs a (xs @ ys) ec =
     gen_append (parallel_estimation_jobs a xs ec) (parallel_estimation_jobs a ys ec)"
  by (induction xs) (auto simp: gen_append_assoc split: sum.splits)

lemma parallel_estimation_jobs_keys:
  "\<forall>tup\<in>set data. tup \<noteq> [] \<and> ec (last tup) \<noteq> None \<Longrightarrow>
   parallel_estimation_jobs a data ec =
     (concat (map (\<lambda>tup. map (\<lambda>est. a @ [PyTuple tup, est]) (the (ec (last tup)))) data), None)"
proof (induction data)
  case Nil
  show ?case by simp
next
  case (Cons tup data)
  then obtain x xs ests where "tup = x # xs" "ec (last tup) = Some ests"
    by (cases tup) auto
  with Cons show ?case
    by (simp add: getitem_dict_def gen_append_def)
qed

section \<open>The dispatch primitive returns one result per pair\<close>

text \<open>
  Claim C1.  When every data tuple has a case key and the mapping contains it, and the
  work function returns on every scheduled job, \<^verbatim>\<open>_parallel_estimation\<close> returns
  \<^verbatim>\<open>sum(len(estimator_cases[tup[-1]]) for tup in data)\<close> results: tuple by tuple in the
  order of \<^verbatim>\<open>data\<close>, and for one tuple estimator by estimator in the order of the
  mapping's list, the result at each position being the value of the work function at
  \<^verbatim>\<open>optional_args + (tup, est)\<close>.
\<close>

theorem parallel_estimation_tuple_major:
  assumes keys: "\<forall>tup\<in>set data. tup \<noteq> [] \<and> estimator_cases (last tup) \<noteq> None"
    and add: "add_input = (case optional_args of Some t \<Rightarrow> t | None \<Rightarrow> [])"
    and returns: "\<forall>tup\<in>set data. \<forall>est\<in>set (the (estimator_cases (last tup))).
        \<exists>r. function (add_input @ [PyTuple tup, est]) = Inr r"
  shows "\<exists>out. parallel_estimation function data estimator_cases optional_args n_jobs = Inr out \<and>
      length out = (\<Sum>tup\<leftarrow>data. length (the (estimator_cases (last tup)))) \<and>
      map Inr out =
        concat (map (\<lambda>tup. map (\<lambda>est. function (add_input @ [PyTuple tup, est]))
                              (the (estimator_cases (last tup)))) data)"
proof -
  let ?jobs = "concat (map (\<lambda>tup. map (\<lambda>est. add_input @ [PyTuple tup, est])
                                 (the (estimator_cases (last tup)))) data)"
  have gen: "parallel_estimation_jobs add_input data estimator_cases = (?jobs, None)"
    using keys by (rule parallel_estimation_jobs_keys)
  have "\<forall>j\<in>set ?jobs. \<exists>r. function j = Inr r"
    using returns by auto
  then obtain out where out: "run_jobs function ?jobs = Inr out"
    using run_jobs_returns by blast
  then have m: "map function ?jobs = map Inr out"
    by (simp add: run_jobs_Inr_iff)
  have res: "parallel_estimation function data estimator_cases optional_args n_jobs = Inr out"
    using gen out add by (simp add: parallel_estimation_def Parallel_exhausted)
  have "length (map Inr out :: (py_error + 'a) list) = length (map function ?jobs)"
    using m by simp
  then have "length out = length ?jobs"
    by simp
  also have "\<dots> = (\<Sum>tup\<leftarrow>data. length (the (estimator_cases (last tup))))"
    by (simp add: length_concat comp_def)
  finally have len: "length out = (\<Sum>tup\<leftarrow>data. length (the (estimator_cases (last tup))))" .
  have "map Inr out = map function ?jobs"
    using m by simp
  also have "\<dots> = concat (map (\<lambda>tup. map (\<lambda>est. function (add_input @ [PyTuple tup, est]))
                              (the (estimator_cases (last tup)))) data)"
    by (simp add: map_concat comp_def)
  finally show ?thesis using res len by blast
qed

theorem parallel_estimation_tuple_major_witness:
  "parallel_estimation (\<lambda>job. Inr (PyTuple job))
     [[PyObj 0, PyStr ''X''], [PyObj 1, PyStr ''Y'']]
     [PyStr ''X'' \<mapsto> [PyObj 10], PyStr ''Y'' \<mapsto> [PyObj 10, PyObj 11]] (Some [PyObj 5]) (- 1) =
   Inr [PyTuple [PyObj 5, PyTuple [PyObj 0, PyStr ''X''], PyObj 10],
        PyTuple [PyObj 5, PyTuple [PyObj 1, PyStr ''Y''], PyObj 10],
        PyTuple [PyObj 5, PyTuple [PyObj 1, PyStr ''Y''], PyObj 11]]"
proof -
  have "\<exists>out. parallel_estimation (\<lambda>job. Inr (PyTuple job))
     [[PyObj 0, PyStr ''X''], [PyObj 1, PyStr ''Y'']]
     [PyStr ''X'' \<mapsto> [PyObj 10], PyStr ''Y'' \<mapsto> [PyObj 10, PyObj 11]] (Some [PyObj 5]) (- 1) =
       Inr out \<and>
      length out = 3 \<and>
      map Inr out = [Inr (PyTuple [PyObj 5, PyTuple [PyObj 0, PyStr ''X''], PyObj 10]),
        Inr (PyTuple [PyObj 5, PyTuple [PyObj 1, PyStr ''Y''], PyObj 10]),
        Inr (PyTuple [PyObj 5, PyTuple [PyObj 1, PyStr ''Y''], PyObj 11]) :: py_error + pyval]"
    using parallel_estimation_tuple_major
      [of "[[PyObj 0, PyStr ''X''], [PyObj 1, PyStr ''Y'']]"
          "[PyStr ''X'' \<mapsto> [PyObj 10], PyStr ''Y'' \<mapsto> [PyObj 10, PyObj 11]]"
          "[PyObj 5]" "Some [PyObj 5]" "\<lambda>job. Inr (PyTuple job)" "- 1"]
    by (simp add: eval_nat_numeral)
  then show ?thesis
    by (auto simp: map_eq_Cons_conv)
qed

lemma parallel_estimation_jobs_no_estimators:
  "getitem_last tup = Inr k \<Longrightarrow> ec k = Some [] \<Longrightarrow>
   parallel_estimation_jobs a [tup] ec = ([], None)"
  by (simp add: getitem_dict_def)

section \<open>A case with no estimators\<close>

text \<open>
  Claim C10.  A data tuple whose case key maps to the empty estimator list schedules
  no job and raises nothing: dispatched alone it gives the empty result list, and
  taking it out of the data changes neither the jobs scheduled for the other tuples nor
  the outcome of the dispatch.
\<close>

theorem empty_estimator_list_schedules_nothing:
  assumes key: "getitem_last tup = Inr k"
    and none: "estimator_cases k = Some []"
  shows "parallel_estimation_jobs add_input [tup] estimator_cases = ([], None) \<and>
     parallel_estimation function [tup] estimator_cases optional_args n_jobs = Inr [] \<and>
     parallel_estimation_jobs add_input (before @ tup # after) estimator_cases =
       parallel_estimation_jobs add_input (before @ after) estimator_cases \<and>
     parallel_estimation function (before @ tup # after) estimator_cases optional_args n_jobs =
       parallel_estimation function (before @ after) estimator_cases optional_args n_jobs"
proof -
  have one: "\<And>a. parallel_estimation_jobs a [tup] estimator_cases = ([], None)"
    using key none by (rule parallel_estimation_jobs_no_estimators)
  have split: "before @ tup # after = before @ [tup] @ after"
    by simp
  have jobs: "\<And>a. parallel_estimation_jobs a (before @ tup # after) estimator_cases =
      parallel_estimation_jobs a (before @ after) estimator_cases"
    unfolding split by (simp only: parallel_estimation_jobs_append one gen_append_empty)
  have alone: "parallel_estimation function [tup] estimator_cases optional_args n_jobs = Inr []"
    unfolding parallel_estimation_def Let_def one by (simp add: Parallel_exhausted)
  have same: "parallel_estimation function (before @ tup # after) estimator_cases optional_args n_jobs =
      parallel_estimation function (before @ after) estimator_cases optional_args n_jobs"
    unfolding parallel_estimation_def Let_def jobs ..
  show ?thesis
    using one jobs alone same by blast
qed

theorem empty_estimator_list_schedules_nothing_witness:
  "parallel_estimation (\<lambda>job. Inr (PyTuple job))
     ([[PyObj 0, PyStr ''X'']] @ [PyObj 1, PyStr ''E''] # [[PyObj 2, PyStr ''Y'']])
     [PyStr ''X'' \<mapsto> [PyObj 10], PyStr ''E'' \<mapsto> [], PyStr ''Y'' \<mapsto> [PyObj 11]] None (- 1) =
   Inr [PyTuple [PyTuple [PyObj 0, PyStr ''X''], PyObj 10],
        PyTuple [PyTuple [PyObj 2, PyStr ''Y''], PyObj 11]] \<and>
   parallel_estimation (\<lambda>job. Inr (PyTuple job)) [[PyObj 1, PyStr ''E'']]
     [PyStr ''X'' \<mapsto> [PyObj 10], PyStr ''E'' \<mapsto> [], PyStr ''Y'' \<mapsto> [PyObj 11]] None (- 1) =
   Inr []"
  using empty_estimator_list_schedules_nothing
    [of "[PyObj 1, PyStr ''E'']" "PyStr ''E''"
        "[PyStr ''X'' \<mapsto> [PyObj 10], PyStr ''E'' \<mapsto> [], PyStr ''Y'' \<mapsto> [PyObj 11]]"
        "[]" "\<lambda>job. Inr (PyTuple job)" None "- 1" "[[PyObj 0, PyStr ''X'']]"
        "[[PyObj 2, PyStr ''Y'']]"]
  by (simp add: parallel_estimation_def Parallel_def getitem_dict_def gen_append_def)

section \<open>A case key missing from the mapping\<close>








section \<open>The number of cross-validation results\<close>

lemma cross_validate_items_present:
  "\<forall>(est_name, est)\<in>set items. param_sets est_name \<noteq> None \<Longrightarrow>
   cross_validate_items items param_sets tup scoring error_score =
     (concat (map (\<lambda>(est_name, est).
                map (\<lambda>(i, params). [est, est_name, params, scoring, tup, PyInt (int i), error_score])
                  (enumerate 0 (the (param_sets est_name)))) items), None)"
proof (induction items)
  case Nil
  show ?case by simp
next
  case (Cons item items)
  obtain est_name est where item: "item = (est_name, est)" by (cases item)
  with Cons.prems obtain ps where "param_sets est_name = Some ps" by auto
  with Cons item show ?case
    by (simp add: getitem_dict_def gen_append_def)
qed

lemma length_cross_validate_items:
  "\<forall>(est_name, est)\<in>set items. param_sets est_name \<noteq> None \<Longrightarrow>
   length (fst (cross_validate_items items param_sets tup scoring error_score)) =
     (\<Sum>(est_name, est)\<leftarrow>items. length (the (param_sets est_name)))"
  by (simp add: cross_validate_items_present length_concat comp_def case_prod_unfold)

lemma cross_validate_jobs_present:
  assumes "\<forall>(est_name, est)\<in>set estimators. param_sets est_name \<noteq> None"
  shows "snd (cross_validate_jobs estimators param_sets dout scoring error_score) = None \<and>
     length (fst (cross_validate_jobs estimators param_sets dout scoring error_score)) =
       length dout * (\<Sum>(est_name, est)\<leftarrow>estimators. length (the (param_sets est_name)))"
proof (induction dout)
  case Nil
  show ?case by simp
next
  case (Cons tup dout)
  have "snd (cross_validate_items estimators param_sets tup scoring error_score) = None"
    using assms by (simp add: cross_validate_items_present)
  then show ?case
    using Cons length_cross_validate_items [OF assms, of tup scoring error_score]
    by (simp add: gen_append_def)
qed

text \<open>
  Claim C2, as amended.  When \<^verbatim>\<open>param_sets\<close> has an entry for every estimator name and
  every scoring job returns, \<^verbatim>\<open>cross_validate\<close> returns
  \<^verbatim>\<open>len(dout) * sum(len(param_sets[name]) for name in estimators)\<close> results: one per
  fold, estimator and parameter set of that estimator.
\<close>

theorem cross_validate_result_count:
  assumes names: "\<forall>(est_name, est)\<in>set estimators. param_sets est_name \<noteq> None"
    and returns: "\<forall>job\<in>set (fst (cross_validate_jobs estimators param_sets dout scoring error_score)).
        \<exists>r. fit_score h job = Inr r"
  shows "\<exists>out. cross_validate h estimators param_sets dout scoring error_score n_jobs = Inr out \<and>
     length out =
       length dout * (\<Sum>(est_name, est)\<leftarrow>estimators. length (the (param_sets est_name)))"
proof -
  let ?g = "cross_validate_jobs estimators param_sets dout scoring error_score"
  obtain out where out: "run_jobs (fit_score h) (fst ?g) = Inr out"
    using run_jobs_returns [OF returns] by blast
  then have "map (fit_score h) (fst ?g) = map Inr out"
    by (rule run_jobs_Inr_D)
  then have "length (map (fit_score h) (fst ?g)) = length (map Inr out :: (py_error + pyval) list)"
    by simp
  then have "length out = length (fst ?g)"
    by simp
  moreover have "cross_validate h estimators param_sets dout scoring error_score n_jobs = Inr out"
    using out cross_validate_jobs_present [OF names, of dout scoring error_score]
    by (simp add: cross_validate_def Parallel_exhausted)
  ultimately show ?thesis
    using cross_validate_jobs_present [OF names, of dout scoring error_score] by simp
qed

theorem cross_validate_result_count_witness:
  "cross_validate (example_helpers (\<lambda>args. Inr (PyTuple args)) (\<lambda>job. Inr job))
     [(PyStr ''a'', PyObj 1), (PyStr ''b'', PyObj 2)]
     [PyStr ''a'' \<mapsto> [PyObj 10], PyStr ''b'' \<mapsto> [PyObj 11, PyObj 12]]
     [PyObj 100] PyNone (PyInt (- 99)) (- 1) =
   Inr [PyTuple [PyObj 1, PyStr ''a'', PyObj 10, PyNone, PyObj 100, PyInt 0, PyInt (- 99)],
        PyTuple [PyObj 2, PyStr ''b'', PyObj 11, PyNone, PyObj 100, PyInt 0, PyInt (- 99)],
        PyTuple [PyObj 2, PyStr ''b'', PyObj 12, PyNone, PyObj 100, PyInt 1, PyInt (- 99)]]"
  using cross_validate_result_count
    [of "[(PyStr ''a'', PyObj 1), (PyStr ''b'', PyObj 2)]"
        "[PyStr ''a'' \<mapsto> [PyObj 10], PyStr ''b'' \<mapsto> [PyObj 11, PyObj 12]]"
        "[PyObj 100]" PyNone "PyInt (- 99)"
        "example_helpers (\<lambda>args. Inr (PyTuple args)) (\<lambda>job. Inr job)" "- 1"]
  by (simp add: cross_validate_def Parallel_def getitem_dict_def gen_append_def
      example_helpers_def enumerate_eq_zip)

text \<open>
  The claim as stated multiplies that number by \<^verbatim>\<open>len(estimators)\<close> once more.  One fold
  and two estimators with one parameter set each give two results, not four.
\<close>

theorem cross_validate_result_count_counterexample:
  "cross_validate (example_helpers (\<lambda>args. Inr PyNone) (\<lambda>job. Inr job))
     [(PyStr ''a'', PyObj 1), (PyStr ''b'', PyObj 2)]
     [PyStr ''a'' \<mapsto> [PyObj 10], PyStr ''b'' \<mapsto> [PyObj 11]]
     [PyObj 100] PyNone (PyInt (- 99)) (- 1) = Inr [PyNone, PyNone] \<and>
   length [PyNone, PyNone] \<noteq>
     length [PyObj 100] * length [(PyStr ''a'', PyObj 1), (PyStr ''b'', PyObj 2)] *
       (\<Sum>(est_name, est)\<leftarrow>[(PyStr ''a'', PyObj 1), (PyStr ''b'', PyObj 2)].
          length (the ([PyStr ''a'' \<mapsto> [PyObj 10], PyStr ''b'' \<mapsto> [PyObj 11]] est_name)))"
  by (simp add: cross_validate_def Parallel_def getitem_dict_def gen_append_def
      example_helpers_def enumerate_eq_zip)

section \<open>The names of the fitted estimators\<close>

lemma zip_star_empty: "xss = [] \<or> [] \<in> set xss \<Longrightarrow> zip_star xss = []"
  by (subst zip_star.simps) simp

lemma zip_star_step:
  "xss \<noteq> [] \<Longrightarrow> [] \<notin> set xss \<Longrightarrow> zip_star xss = map hd xss # zip_star (map tl xss)"
  by (subst zip_star.simps) simp

lemma hd_zip_star: "zip_star xss \<noteq> [] \<Longrightarrow> hd (zip_star xss) = map hd xss"
  by (cases "xss = [] \<or> [] \<in> set xss") (auto simp: zip_star_empty zip_star_step)

lemma length_zip_star_uniform:
  "xss \<noteq> [] \<Longrightarrow> \<forall>xs\<in>set xss. length xs = n \<Longrightarrow> length (zip_star xss) = n"
proof (induction n arbitrary: xss)
  case 0
  then have "[] \<in> set xss" by (cases xss) auto
  then show ?case by (simp add: zip_star_empty)
next
  case (Suc n)
  then have ne: "[] \<notin> set xss" by auto
  have "map tl xss \<noteq> []" using Suc.prems by simp
  moreover have "\<forall>xs\<in>set (map tl xss). length xs = n" using Suc.prems by auto
  ultimately have "length (zip_star (map tl xss)) = n" by (rule Suc.IH)
  then show ?case using Suc.prems(1) ne by (simp add: zip_star_step)
qed


lemma unpack3_length: "length xs = 3 \<Longrightarrow> unpack3 xs = Inr (hd xs, xs ! 1, xs ! 2)"
  by (cases xs rule: unpack3.cases) auto

lemma unpack3_other: "length xs \<noteq> 3 \<Longrightarrow> unpack3 xs = Inl ValueError"
  by (cases xs rule: unpack3.cases) auto

lemma unpack2_length: "length xs = 2 \<Longrightarrow> unpack2 xs = Inr (hd xs, xs ! 1)"
  by (cases xs rule: unpack2.cases) auto

lemma unpack2_other: "length xs \<noteq> 2 \<Longrightarrow> unpack2 xs = Inl ValueError"
  by (cases xs rule: unpack2.cases) auto

lemma pre_check_estimators_eq:
  "pre_check_estimators out columns =
     (if length (zip_star out) = 3 \<or> length (zip_star out) = 2
      then Inr (filter (\<lambda>ce. ce \<in> set (map hd out)) columns)
      else Inl ValueError)"
proof -
  consider "length (zip_star out) = 3" | "length (zip_star out) = 2"
    | "length (zip_star out) \<noteq> 3" "length (zip_star out) \<noteq> 2" by blast
  then show ?thesis
  proof cases
    case 1
    then have "zip_star out \<noteq> []" by auto
    then show ?thesis
      using 1 by (simp add: pre_check_estimators_def unpack3_length hd_zip_star)
  next
    case 2
    then have "zip_star out \<noteq> []" by auto
    then show ?thesis
      using 2 by (simp add: pre_check_estimators_def unpack3_other unpack2_length hd_zip_star)
  next
    case 3
    then show ?thesis
      by (simp add: pre_check_estimators_def unpack3_other unpack2_other)
  qed
qed

text \<open>
  Claim C6.  On a non-empty result list whose tuples all have three elements, or all
  have two, \<^verbatim>\<open>_pre_check_estimators\<close> succeeds and returns the candidate columns whose
  name is the first component of some result.  With three elements the first unpacking
  succeeds; with two it raises \<^verbatim>\<open>ValueError\<close> and the second unpacking succeeds; both
  bind the names to the first components of the results.
\<close>

theorem pre_check_estimators_two_shapes:
  assumes "out \<noteq> []"
    and "(\<forall>r\<in>set out. length r = 3) \<or> (\<forall>r\<in>set out. length r = 2)"
  shows "pre_check_estimators out columns =
       Inr (filter (\<lambda>ce. ce \<in> set (map hd out)) columns) \<and>
     ((\<forall>r\<in>set out. length r = 3) \<longrightarrow>
        (\<exists>a b. unpack3 (zip_star out) = Inr (map hd out, a, b))) \<and>
     ((\<forall>r\<in>set out. length r = 2) \<longrightarrow>
        unpack3 (zip_star out) = Inl ValueError \<and>
        (\<exists>a. unpack2 (zip_star out) = Inr (map hd out, a)))"
proof -
  have three: "length (zip_star out) = 3" if "\<forall>r\<in>set out. length r = 3"
    using assms(1) that by (rule length_zip_star_uniform)
  have two: "length (zip_star out) = 2" if "\<forall>r\<in>set out. length r = 2"
    using assms(1) that by (rule length_zip_star_uniform)
  have "length (zip_star out) = 3 \<or> length (zip_star out) = 2"
    using assms(2) three two by blast
  then have "pre_check_estimators out columns =
      Inr (filter (\<lambda>ce. ce \<in> set (map hd out)) columns)"
    by (simp add: pre_check_estimators_eq)
  moreover have "\<exists>a b. unpack3 (zip_star out) = Inr (map hd out, a, b)"
    if "\<forall>r\<in>set out. length r = 3"
  proof -
    have "zip_star out \<noteq> []" using three [OF that] by auto
    then show ?thesis using three [OF that] by (simp add: unpack3_length hd_zip_star)
  qed
  moreover have "unpack3 (zip_star out) = Inl ValueError \<and>
      (\<exists>a. unpack2 (zip_star out) = Inr (map hd out, a))"
    if "\<forall>r\<in>set out. length r = 2"
  proof -
    have "zip_star out \<noteq> []" using two [OF that] by auto
    then show ?thesis
      using two [OF that] by (simp add: unpack3_other unpack2_length hd_zip_star)
  qed
  ultimately show ?thesis by blast
qed

theorem pre_check_estimators_two_shapes_witness:
  "pre_check_estimators [[PyStr ''svm'', PyInt 0, PyObj 1], [PyStr ''rf'', PyInt 0, PyObj 2]]
     [PyStr ''rf'', PyStr ''svm'', PyStr ''knn''] = Inr [PyStr ''rf'', PyStr ''svm''] \<and>
   pre_check_estimators [[PyStr ''svm'', PyObj 1], [PyStr ''rf'', PyObj 2]]
     [PyStr ''rf'', PyStr ''svm'', PyStr ''knn''] = Inr [PyStr ''rf'', PyStr ''svm'']"
  using pre_check_estimators_two_shapes
      [of "[[PyStr ''svm'', PyInt 0, PyObj 1], [PyStr ''rf'', PyInt 0, PyObj 2]]"
          "[PyStr ''rf'', PyStr ''svm'', PyStr ''knn'']"]
    pre_check_estimators_two_shapes
      [of "[[PyStr ''svm'', PyObj 1], [PyStr ''rf'', PyObj 2]]"
          "[PyStr ''rf'', PyStr ''svm'', PyStr ''knn'']"]
  by simp

lemma pre_check_estimators_no_results: "pre_check_estimators [] columns = Inl ValueError"
  by (simp add: pre_check_estimators_eq zip_star_empty)


lemma parallel_estimation_jobs_all_empty:
  "\<forall>tup\<in>set data. \<exists>k. getitem_last tup = Inr k \<and> ec k = Some [] \<Longrightarrow>
   parallel_estimation_jobs a data ec = ([], None)"
  by (induction data) (auto simp: getitem_dict_def)

section \<open>A dispatch with no results\<close>

text \<open>
  Claim C9.  When the dispatch of \<^verbatim>\<open>base_predict\<close> yields the empty result list,
  \<^verbatim>\<open>base_predict\<close> raises \<^verbatim>\<open>ValueError\<close>: \<^verbatim>\<open>zip(*out)\<close> is empty and neither unpacking
  of \<^verbatim>\<open>_pre_check_estimators\<close> succeeds.  No empty matrix and no empty column list is
  returned.  This is so for an empty data list, and for data whose tuples all have a
  case with no estimators.
\<close>

theorem base_predict_no_results:
  "(parallel_estimation (base_predict_function h folded_preds fit) data estimator_cases None n_jobs = Inr [] \<longrightarrow>
      base_predict h data estimator_cases n folded_preds fit columns as_df n_jobs = Inl ValueError) \<and>
   base_predict h [] estimator_cases n folded_preds fit columns as_df n_jobs = Inl ValueError \<and>
   ((\<forall>tup\<in>set data. \<exists>k. getitem_last tup = Inr k \<and> estimator_cases k = Some []) \<longrightarrow>
      base_predict h data estimator_cases n folded_preds fit columns as_df n_jobs = Inl ValueError)"
proof -
  have gen: "base_predict h data estimator_cases n folded_preds fit columns as_df n_jobs = Inl ValueError"
    if "parallel_estimation (base_predict_function h folded_preds fit) data estimator_cases None n_jobs = Inr []"
    for data
    using that
    by (simp add: base_predict_def base_predict_collect_def pre_check_estimators_no_results)
  have "parallel_estimation (base_predict_function h folded_preds fit) [] estimator_cases None n_jobs = Inr []"
    by (simp add: parallel_estimation_def Parallel_def)
  moreover have
    "parallel_estimation (base_predict_function h folded_preds fit) data estimator_cases None n_jobs = Inr []"
    if "\<forall>tup\<in>set data. \<exists>k. getitem_last tup = Inr k \<and> estimator_cases k = Some []"
    using parallel_estimation_jobs_all_empty [OF that]
    by (simp add: parallel_estimation_def Parallel_def)
  ultimately show ?thesis using gen by blast
qed

theorem base_predict_no_results_witness:
  "base_predict (example_helpers (\<lambda>args. Inr PyNone) (\<lambda>job. Inr job)) []
     [PyStr ''a'' \<mapsto> [PyObj 10]] (PyInt 4) True True [PyStr ''m''] False (- 1) = Inl ValueError \<and>
   base_predict (example_helpers (\<lambda>args. Inr PyNone) (\<lambda>job. Inr job)) [[PyObj 0, PyStr ''a'']]
     [PyStr ''a'' \<mapsto> []] (PyInt 4) False True [PyStr ''m''] True 1 = Inl ValueError"
  using base_predict_no_results
      [of "example_helpers (\<lambda>args. Inr PyNone) (\<lambda>job. Inr job)" True True "[]"
          "[PyStr ''a'' \<mapsto> [PyObj 10]]" "- 1" "PyInt 4" "[PyStr ''m'']" False]
    base_predict_no_results
      [of "example_helpers (\<lambda>args. Inr PyNone) (\<lambda>job. Inr job)" False True "[[PyObj 0, PyStr ''a'']]"
          "[PyStr ''a'' \<mapsto> []]" 1 "PyInt 4" "[PyStr ''m'']" True]
  by simp

section \<open>The order of the columns\<close>



section \<open>The choice of the work function\<close>

text \<open>
  Claim C7.  \<^verbatim>\<open>base_predict\<close> dispatches \<^verbatim>\<open>_fit_predict_base\<close> when \<^verbatim>\<open>folded_preds\<close> and
  \<^verbatim>\<open>fit\<close> are both true, \<^verbatim>\<open>_predict_base\<close> when \<^verbatim>\<open>folded_preds\<close> is true and \<^verbatim>\<open>fit\<close> is
  false, and \<^verbatim>\<open>_predict\<close> when \<^verbatim>\<open>folded_preds\<close> is false, whatever \<^verbatim>\<open>fit\<close> is.  The choice
  is a function of the two flags: it calls nothing, and \<^verbatim>\<open>base_predict\<close> is the dispatch
  of the chosen function followed by the assembly of the results.
\<close>

theorem base_predict_function_selection:
  "base_predict_function h True True = fit_predict_base h \<and>
   base_predict_function h True False = predict_base h \<and>
   base_predict_function h False fit = predict h \<and>
   base_predict h data estimator_cases n folded_preds fit columns as_df n_jobs =
     base_predict_collect h
       (parallel_estimation (base_predict_function h folded_preds fit)
          data estimator_cases None n_jobs)
       n folded_preds columns as_df"
  by (simp add: base_predict_function_def base_predict_def)

section \<open>The registry of fitted estimators\<close>

lemma fit_estimators_loop_three:
  "fit_estimators_loop out fe = Inr m \<Longrightarrow> \<forall>r\<in>set out. length r = 3"
proof (induction out arbitrary: fe)
  case Nil
  show ?case by simp
next
  case (Cons r out)
  from Cons.prems have len: "length r = 3"
    by (cases "length r = 3") (auto simp: unpack3_other)
  then obtain c name est where r: "r = [c, name, est]"
    by (cases r rule: unpack3.cases) auto
  have "\<exists>fe'. fit_estimators_loop out fe' = Inr m"
    using Cons.prems r by (auto simp: getitem_dict_def Let_def split: if_splits)
  then show ?case using Cons.IH len by auto
qed

lemma fit_estimators_loop_groups:
  "\<forall>r\<in>set out. length r = 3 \<Longrightarrow>
   fit_estimators_loop out fe =
     Inr (\<lambda>c. let new = map (\<lambda>r. (r ! 1, r ! 2)) (filter (\<lambda>r. r ! 0 = c \<and> r ! 1 \<noteq> PyNone) out)
               in case fe c of
                    None \<Rightarrow> if new = [] then None else Some new
                  | Some l \<Rightarrow> Some (l @ new))"
proof (induction out arbitrary: fe)
  case Nil
  show ?case by (auto simp: fun_eq_iff split: option.splits)
next
  case (Cons r out)
  then obtain c name est where r: "r = [c, name, est]"
    by (cases r rule: unpack3.cases) auto
  have rest: "\<forall>r\<in>set out. length r = 3" using Cons.prems by simp
  show ?case
  proof (cases "name = PyNone")
    case True
    then show ?thesis using Cons.IH [OF rest, of fe] r by simp
  next
    case False
    then show ?thesis
      using r
      by (auto simp: Cons.IH [OF rest] getitem_dict_def Let_def fun_eq_iff split: option.splits)
  qed
qed

text \<open>
  Claim C4.  The mapping returned by \<^verbatim>\<open>fit_estimators\<close> contains a case key exactly
  when some dispatched result of that case has an estimator name other than \<^verbatim>\<open>None\<close>.
  Results whose name is \<^verbatim>\<open>None\<close> are dropped, no key is mapped to the empty list, and
  the entries \<^verbatim>\<open>(est_name, est)\<close> of a case are those of its named results, in the
  order of the dispatch results.  The mapping is returned whenever the dispatch
  returns results of three elements each.
\<close>

theorem fit_estimators_registry:
  "(fit_estimators h data y estimator_cases n_jobs = Inr m \<longrightarrow>
      (\<exists>out. parallel_estimation (fit_estimator h) data estimator_cases (Some [y]) n_jobs = Inr out \<and>
         (\<forall>c. (c \<in> dom m \<longleftrightarrow> (\<exists>r\<in>set out. r ! 0 = c \<and> r ! 1 \<noteq> PyNone)) \<and>
              m c \<noteq> Some [] \<and>
              (c \<in> dom m \<longrightarrow>
                 m c = Some (map (\<lambda>r. (r ! 1, r ! 2))
                               (filter (\<lambda>r. r ! 0 = c \<and> r ! 1 \<noteq> PyNone) out)))))) \<and>
   (parallel_estimation (fit_estimator h) data estimator_cases (Some [y]) n_jobs = Inr out \<and>
    (\<forall>r\<in>set out. length r = 3) \<longrightarrow>
      (\<exists>m. fit_estimators h data y estimator_cases n_jobs = Inr m))"
proof -
  let ?d = "parallel_estimation (fit_estimator h) data estimator_cases (Some [y]) n_jobs"
  have first: "\<exists>out. ?d = Inr out \<and>
         (\<forall>c. (c \<in> dom m \<longleftrightarrow> (\<exists>r\<in>set out. r ! 0 = c \<and> r ! 1 \<noteq> PyNone)) \<and>
              m c \<noteq> Some [] \<and>
              (c \<in> dom m \<longrightarrow>
                 m c = Some (map (\<lambda>r. (r ! 1, r ! 2))
                               (filter (\<lambda>r. r ! 0 = c \<and> r ! 1 \<noteq> PyNone) out))))"
    if ret: "fit_estimators h data y estimator_cases n_jobs = Inr m"
  proof -
    from ret obtain out where out: "?d = Inr out"
      by (cases ?d) (auto simp: fit_estimators_def)
    with ret have loop: "fit_estimators_loop out Map.empty = Inr m"
      by (simp add: fit_estimators_def)
    then have three: "\<forall>r\<in>set out. length r = 3"
      by (rule fit_estimators_loop_three)
    have m: "m = (\<lambda>c. let new = map (\<lambda>r. (r ! 1, r ! 2))
                                  (filter (\<lambda>r. r ! 0 = c \<and> r ! 1 \<noteq> PyNone) out)
                      in if new = [] then None else Some new)"
      using loop fit_estimators_loop_groups [OF three, of Map.empty] by simp
    have "(c \<in> dom m \<longleftrightarrow> (\<exists>r\<in>set out. r ! 0 = c \<and> r ! 1 \<noteq> PyNone)) \<and>
              m c \<noteq> Some [] \<and>
              (c \<in> dom m \<longrightarrow>
                 m c = Some (map (\<lambda>r. (r ! 1, r ! 2))
                               (filter (\<lambda>r. r ! 0 = c \<and> r ! 1 \<noteq> PyNone) out)))" for c
      unfolding m by (auto simp: Let_def dom_def filter_empty_conv)
    with out show ?thesis by blast
  qed
  have second: "\<exists>m. fit_estimators h data y estimator_cases n_jobs = Inr m"
    if "?d = Inr out" "\<forall>r\<in>set out. length r = 3"
    using that fit_estimators_loop_groups [OF that(2), of Map.empty]
    by (simp add: fit_estimators_def)
  show ?thesis using first second by blast
qed

theorem fit_estimators_registry_witness:
  "\<exists>m. fit_estimators (example_helpers (\<lambda>args. Inr PyNone) (example_fit_estimator (PyStr ''m2'')))
       [[PyObj 0, PyStr ''X''], [PyObj 1, PyStr ''Y''], [PyObj 2, PyStr ''Z'']] (PyObj 9)
       [PyStr ''X'' \<mapsto> [PyStr ''m1''], PyStr ''Y'' \<mapsto> [PyStr ''m1'', PyStr ''m2''],
        PyStr ''Z'' \<mapsto> [PyStr ''m2'']] (- 1) = Inr m \<and>
     m (PyStr ''X'') = Some [(PyStr ''m1'', PyTuple [PyStr ''m1'', PyObj 9])] \<and>
     m (PyStr ''Y'') = Some [(PyStr ''m1'', PyTuple [PyStr ''m1'', PyObj 9])] \<and>
     m (PyStr ''Z'') = None"
proof -
  let ?h = "example_helpers (\<lambda>args. Inr PyNone) (example_fit_estimator (PyStr ''m2''))"
  let ?data = "[[PyObj 0, PyStr ''X''], [PyObj 1, PyStr ''Y''], [PyObj 2, PyStr ''Z'']]"
  let ?cases = "[PyStr ''X'' \<mapsto> [PyStr ''m1''], PyStr ''Y'' \<mapsto> [PyStr ''m1'', PyStr ''m2''],
        PyStr ''Z'' \<mapsto> [PyStr ''m2'']]"
  let ?out = "[[PyStr ''X'', PyStr ''m1'', PyTuple [PyStr ''m1'', PyObj 9]],
               [PyStr ''Y'', PyStr ''m1'', PyTuple [PyStr ''m1'', PyObj 9]],
               [PyStr ''Y'', PyNone, PyNone],
               [PyStr ''Z'', PyNone, PyNone]]"
  have disp: "parallel_estimation (fit_estimator ?h) ?data ?cases (Some [PyObj 9]) (- 1) = Inr ?out"
    by (simp add: parallel_estimation_def Parallel_def getitem_dict_def gen_append_def
        example_helpers_def Let_def)
  have three: "\<forall>r\<in>set ?out. length r = 3"
    by simp
  obtain m where m: "fit_estimators ?h ?data (PyObj 9) ?cases (- 1) = Inr m"
    using fit_estimators_registry [of ?h ?data "PyObj 9" ?cases "- 1" Map.empty ?out] disp three
    by blast
  obtain out where
    out: "parallel_estimation (fit_estimator ?h) ?data ?cases (Some [PyObj 9]) (- 1) = Inr out"
    and groups: "\<And>c. (c \<in> dom m \<longleftrightarrow> (\<exists>r\<in>set out. r ! 0 = c \<and> r ! 1 \<noteq> PyNone)) \<and>
              m c \<noteq> Some [] \<and>
              (c \<in> dom m \<longrightarrow>
                 m c = Some (map (\<lambda>r. (r ! 1, r ! 2))
                               (filter (\<lambda>r. r ! 0 = c \<and> r ! 1 \<noteq> PyNone) out)))"
    using fit_estimators_registry [of ?h ?data "PyObj 9" ?cases "- 1" m ?out] m
    by blast
  have eq: "out = ?out"
    using out disp by simp
  have "m (PyStr ''X'') = Some [(PyStr ''m1'', PyTuple [PyStr ''m1'', PyObj 9])]"
    using groups [of "PyStr ''X''"] unfolding eq by simp
  moreover have "m (PyStr ''Y'') = Some [(PyStr ''m1'', PyTuple [PyStr ''m1'', PyObj 9])]"
    using groups [of "PyStr ''Y''"] unfolding eq by simp
  moreover have "m (PyStr ''Z'') = None"
    using groups [of "PyStr ''Z''"] unfolding eq by (simp add: dom_def)
  ultimately show ?thesis using m by blast
qed

end
